theory Spec2Isabelle
  imports Complex_Main "HOL-Library.AList"
begin

section \<open>Data model\<close>

text \<open>
  The cog \<open>QueueCog\<close> of \<open>inhouse_bot/cogs/queue_cog.py\<close> keeps the per-channel role
  queues in memory and reads and writes players, ratings, games and game participants
  through an ORM session.

  Modelled from the spec: \<open>roles_list\<close> is imported from
  \<open>inhouse_bot.sqlite.sqlite_utils\<close>, which is not part of the sources at hand. The
  docstring of \<open>queue\<close> names the roles (top, jungle, mid, bot, support) and the spec
  speaks of five fixed roles, so the list is taken to hold these five, in that order.
\<close>

datatype role = Top | Jungle | Mid | Bot | Support

definition roles_list :: "role list" where
  "roles_list = [Top, Jungle, Mid, Bot, Support]"

text \<open>The strings \<open>'blue'\<close> and \<open>'red'\<close>.\<close>

datatype team = Blue | Red

text \<open>
  A \<open>Player\<close> row is keyed by its discord id, and the session hands out one object per
  key, so a player inside a queue or a composition is represented by that id.
\<close>

type_synonym player = nat
type_synonym channel_id = nat

text \<open>
  A Python \<open>set\<close> of players is a duplicate-free list: \<open>add\<close> appends unless the player
  is present, \<open>discard\<close> removes it. The list order stands for the iteration order of
  the set, which Python leaves to the hash values.
\<close>

definition set_add :: "'a \<Rightarrow> 'a list \<Rightarrow> 'a list" where
  "set_add x xs = (if x \<in> set xs then xs else xs @ [x])"

definition set_discard :: "'a \<Rightarrow> 'a list \<Rightarrow> 'a list" where
  "set_discard x xs = removeAll x xs"

text \<open>
  \<open>self.channel_queues = defaultdict(lambda: {role: set() for role in roles_list})\<close>:
  a dictionary from channel ids to dictionaries from roles to sets of players. The outer
  dictionary is an association list in insertion order; the inner one, whose keys are
  always the five roles, is a function on \<open>role\<close>.
\<close>

type_synonym role_queues = "role \<Rightarrow> player list"
type_synonym queues = "(channel_id \<times> role_queues) list"

definition default_factory :: role_queues where
  "default_factory = (\<lambda>r. [])"

text \<open>
  \<open>self.channel_queues[channel_id]\<close>: reading a missing key of a \<open>defaultdict\<close> stores
  the default under that key first. The result is the dictionary after the access and
  the value read.
\<close>

definition getitem :: "queues \<Rightarrow> channel_id \<Rightarrow> queues \<times> role_queues" where
  "getitem cq c =
     (case map_of cq c of
        Some q \<Rightarrow> (cq, q)
      | None \<Rightarrow> (AList.update c default_factory cq, default_factory))"

text \<open>\<open>self.channel_queues[channel_id][role].add(player)\<close>\<close>

definition add_player :: "queues \<Rightarrow> channel_id \<Rightarrow> role \<Rightarrow> player \<Rightarrow> queues" where
  "add_player cq c r p =
     (case getitem cq c of
        (cq', q) \<Rightarrow> AList.update c (q(r := set_add p (q r))) cq')"

text \<open>
  \<open>for role in self.channel_queues[channel_id]:
       self.channel_queues[channel_id][role].discard(player)\<close>
\<close>

definition discard_player :: "queues \<Rightarrow> channel_id \<Rightarrow> player \<Rightarrow> queues" where
  "discard_player cq c p =
     (case getitem cq c of
        (cq', q) \<Rightarrow> AList.update c (\<lambda>r. set_discard p (q r)) cq')"

text \<open>
  What is waiting in a channel: the value a read of \<open>self.channel_queues[channel_id]\<close>
  gives, which is the default for a channel that has no entry yet.
\<close>

definition snapshot :: "queues \<Rightarrow> channel_id \<Rightarrow> role_queues" where
  "snapshot cq c = snd (getitem cq c)"

section \<open>Matchmaking\<close>

text \<open>
  A composition is the dictionary \<open>players: [team, role] -> Player\<close>, kept as the list of
  its items in insertion order.
\<close>

type_synonym composition = "((team \<times> role) \<times> player) list"

text \<open>
  \<open>itertools.permutations(pool, 2)\<close>: the ordered pairs of elements at two different
  positions, in lexicographic order of the positions.
\<close>

definition permutations2 :: "'a list \<Rightarrow> ('a \<times> 'a) list" where
  "permutations2 pool =
     concat (map (\<lambda>i. map (\<lambda>j. (pool ! i, pool ! j))
                         (filter (\<lambda>j. j \<noteq> i) [0..<length pool]))
                 [0..<length pool])"

text \<open>
  The dictionary comprehension of \<open>match_game\<close>:
  \<open>{('red' if tuple_idx else 'blue', roles_list[role_idx]): players_tuple[tuple_idx]
     for role_idx, players_tuple in enumerate(team_composition) for tuple_idx in (0, 1)}\<close>
\<close>

definition make_players :: "(player \<times> player) list \<Rightarrow> composition" where
  "make_players team_composition =
     concat (map (\<lambda>(role_idx, players_tuple).
                    [((Blue, roles_list ! role_idx), fst players_tuple),
                     ((Red, roles_list ! role_idx), snd players_tuple)])
                 (enumerate 0 team_composition))"

text \<open>
  One turn of the maximum search. \<open>set(players.values()).__len__()\<close> is the number of
  different players, \<open>length (remdups ...)\<close>. The win rate estimate
  \<open>trueskill_blue_side_winrate\<close> is not defined in the sources at hand and is a
  parameter; scores are real numbers.
\<close>

definition try_composition ::
  "(composition \<Rightarrow> real) \<Rightarrow> composition \<times> real \<Rightarrow> (player \<times> player) list \<Rightarrow> composition \<times> real" where
  "try_composition trueskill_blue_side_winrate best team_composition =
     (case best of (best_players, best_score) \<Rightarrow>
        let players = make_players team_composition in
        if length (remdups (map snd players)) \<noteq> 10 then (best_players, best_score)
        else
          let score = - \<bar>0.5 - trueskill_blue_side_winrate players\<bar> in
          if score > best_score then (players, score) else (best_players, best_score))"

text \<open>
  \<open>match_game\<close> returns \<open>None, -1\<close> when some role has fewer than two players, and the
  best composition found (the empty dictionary when there is none) with its score
  otherwise. \<open>itertools.product\<close> enumerates with the last list running fastest, as
  \<open>product_lists\<close> does. The first component of the result is the dictionary of queues
  after the access.
\<close>

definition match_game ::
  "(composition \<Rightarrow> real) \<Rightarrow> queues \<Rightarrow> channel_id \<Rightarrow> queues \<times> composition option \<times> real" where
  "match_game trueskill_blue_side_winrate cq channel =
     (case getitem cq channel of (cq', q) \<Rightarrow>
        if list_ex (\<lambda>r. length (q r) < 2) roles_list then (cq', None, -1)
        else
          let role_permutations = map (\<lambda>r. permutations2 (q r)) roles_list;
              best = foldl (try_composition trueskill_blue_side_winrate) ([], -1)
                           (product_lists role_permutations)
          in (cq', Some (fst best), snd best))"

text \<open>The ten slots in the order the comprehension creates them.\<close>

definition slots :: "(team \<times> role) list" where
  "slots = concat (map (\<lambda>r. [(Blue, r), (Red, r)]) roles_list)"

section \<open>The session: players, ratings, games\<close>

text \<open>
  The ORM classes \<open>Player\<close>, \<open>PlayerRating\<close>, \<open>Game\<close> and \<open>GameParticipant\<close> live in
  \<open>inhouse_bot.sqlite\<close>, which is not part of the sources at hand; the records hold
  the columns the cog reads and writes. Dates are timestamps. \<open>gid\<close> is \<open>Game.id\<close>.
\<close>

record rating =
  mu :: real
  sigma :: real

record game =
  gid :: nat
  date :: nat
  winner :: "team option"

record game_participant =
  game_id :: nat
  player_id :: player
  team :: team
  role :: role
  champion_id :: "nat option"

text \<open>
  The state of the cog: the in-memory queues and the tables seen through
  \<open>self.session\<close>. An attribute assigned on a row object is part of the session's view
  from then on, so it is written to the table at once.
\<close>

record bot_state =
  channel_queues :: queues
  known_players :: "player \<rightharpoonup> string"
  ratings :: "player \<times> role \<rightharpoonup> rating"
  games :: "game list"
  participants :: "game_participant list"

text \<open>The parts of the command context the cog uses: the author and the channel.\<close>

record ctx =
  author_id :: player
  author_name :: string
  channel :: channel_id

text \<open>Python exceptions that leave a command uncaught.\<close>

datatype error = TypeError | AttributeError | NoResultFound | MultipleResultsFound

text \<open>
  What \<open>ctx.send\<close> posts, one constructor per call site. The queue embed lists, per
  role, the players waiting in the channel (the model keeps their ids where the embed
  prints their names).
\<close>

type_synonym embed = "(role \<times> player list) list"

datatype message =
    LastGameOngoing
  | NowInQueue player "role list" embed
  | ProposedGame composition bool
  | RemovedFromQueue player bool embed
  | GameCancelled nat
  | GameResultChanged nat
  | RatingsRecomputed nat

text \<open>\<open>get_player\<close>: merge the author into the session, which updates the name.\<close>

definition get_player :: "bot_state \<Rightarrow> ctx \<Rightarrow> bot_state \<times> player" where
  "get_player st c = (st\<lparr>known_players := (known_players st)(author_id c \<mapsto> author_name c)\<rparr>,
      author_id c)"

text \<open>
  \<open>order_by(Game.date.desc()).first()\<close>: the row of the latest date, \<open>None\<close> when there
  is no row. Among rows of the same date SQL leaves the choice open; the model takes the
  first in table order.
\<close>

fun latest :: "(game \<times> game_participant) list \<Rightarrow> (game \<times> game_participant) option" where
  "latest [] = None"
| "latest (row # rows) =
     (case latest rows of
        None \<Rightarrow> Some row
      | Some best \<Rightarrow> if date (fst row) < date (fst best) then Some best else Some row)"

text \<open>
  \<open>get_last\<close>: \<open>session.query(Game, GameParticipant).join(GameParticipant)
  .filter(GameParticipant.player_id == player.discord_id)\<close>, latest first.
\<close>

definition get_last :: "bot_state \<Rightarrow> player \<Rightarrow> (game \<times> game_participant) option" where
  "get_last st p =
     latest [(g, gp). g \<leftarrow> games st, gp \<leftarrow> participants st,
                      game_id gp = gid g \<and> player_id gp = p]"

section \<open>The commands\<close>

text \<open>
  \<open>get_current_queue_embed\<close> reads \<open>self.channel_queues[ctx.channel.id][role]\<close> for each
  role of \<open>roles_list\<close>; the read creates the channel's entry when it is missing.
\<close>

definition get_current_queue_embed :: "queues \<Rightarrow> channel_id \<Rightarrow> queues \<times> embed" where
  "get_current_queue_embed cq c =
     (case getitem cq c of (cq', q) \<Rightarrow> (cq', map (\<lambda>r. (r, q r)) roles_list))"

text \<open>
  The body of the loop \<open>for role in clean_roles\<close> of \<open>queue\<close>: create the missing
  \<open>PlayerRating\<close>, then add the player to the role's set. The values of a fresh rating
  are set by the constructor \<open>PlayerRating(player, role)\<close>, a parameter here.
\<close>

definition enqueue_role ::
  "(player \<Rightarrow> role \<Rightarrow> rating) \<Rightarrow> channel_id \<Rightarrow> player \<Rightarrow> bot_state \<Rightarrow> role \<Rightarrow> bot_state" where
  "enqueue_role new_rating c p st r =
     (let st1 = (if ratings st (p, r) = None
                 then st\<lparr>ratings := (ratings st)((p, r) \<mapsto> new_rating p r)\<rparr>
                 else st)
      in st1\<lparr>channel_queues := add_player (channel_queues st1) c r p\<rparr>)"

text \<open>The loop itself, over the roles in the order given.\<close>

definition enqueue ::
  "(player \<Rightarrow> role \<Rightarrow> rating) \<Rightarrow> bot_state \<Rightarrow> channel_id \<Rightarrow> player \<Rightarrow> role list \<Rightarrow> bot_state" where
  "enqueue new_rating st c p clean_roles = foldl (enqueue_role new_rating c p) st clean_roles"

text \<open>\<open>remove_players_from_queue\<close>: the body is \<open>pass\<close>.\<close>

definition remove_players_from_queue :: "bot_state \<Rightarrow> player list \<Rightarrow> bot_state" where
  "remove_players_from_queue st ps = st"

text \<open>
  \<open>start_game\<close> builds \<open>Game(players)\<close> without adding it to the session, posts the
  proposal (with the warning field when \<open>mismatch\<close> is set) and, with \<open>game_start\<close> fixed
  to \<open>False\<close>, never reaches the removal of the players. Called with \<open>None\<close> it fails at
  \<open>players.values()\<close>.
\<close>

definition start_game ::
  "bot_state \<Rightarrow> composition option \<Rightarrow> bool \<Rightarrow> error + bot_state \<times> message list" where
  "start_game st players mismatch =
     (case players of
        None \<Rightarrow> Inl AttributeError
      | Some ps \<Rightarrow>
          let game_start = False in
          Inr (if game_start then remove_players_from_queue st (map snd ps) else st,
               [ProposedGame ps mismatch]))"

text \<open>
  The guard of \<open>queue\<close>: the player's last game has no winner. A player without any game
  makes the unpacking of \<open>None\<close> raise \<open>TypeError\<close>, which the command catches.
\<close>

definition last_game_ongoing :: "bot_state \<Rightarrow> player \<Rightarrow> bool" where
  "last_game_ongoing st p =
     (case get_last st p of
        None \<Rightarrow> False
      | Some (game, participant) \<Rightarrow> winner game = None)"

text \<open>
  The command \<open>queue\<close>. Its argument is \<open>clean_roles\<close>, the roles the fuzzy matcher
  (\<open>rapidfuzz\<close>, external) makes of the words typed.
\<close>

definition queue ::
  "(composition \<Rightarrow> real) \<Rightarrow> (player \<Rightarrow> role \<Rightarrow> rating) \<Rightarrow> bot_state \<Rightarrow> ctx \<Rightarrow> role list
     \<Rightarrow> error + bot_state \<times> message list" where
  "queue trueskill_blue_side_winrate new_rating st0 c clean_roles =
     (case get_player st0 c of (st, p) \<Rightarrow>
        if last_game_ongoing st p then Inr (st, [LastGameOngoing])
        else
          let st1 = enqueue new_rating st (channel c) p clean_roles in
          (case get_current_queue_embed (channel_queues st1) (channel c) of (cq2, table) \<Rightarrow>
             let sent = [NowInQueue p clean_roles table] in
             (case match_game trueskill_blue_side_winrate cq2 (channel c) of
                (cq3, players, match_quality) \<Rightarrow>
                  let st3 = st1\<lparr>channel_queues := cq3\<rparr> in
                  if match_quality > - 0.1 then
                    (case start_game st3 players False of
                       Inl e \<Rightarrow> Inl e
                     | Inr (st4, msgs) \<Rightarrow> Inr (st4, sent @ msgs))
                  else if match_quality > - 0.2 then
                    (case start_game st3 players True of
                       Inl e \<Rightarrow> Inl e
                     | Inr (st4, msgs) \<Rightarrow> Inr (st4, sent @ msgs))
                  else Inr (st3, sent))))"

text \<open>
  The command \<open>leave_queue\<close>:
  \<open>for channel_id in self.channel_queues if args else [ctx.channel.id]\<close>.
\<close>

definition leave_queue :: "bot_state \<Rightarrow> ctx \<Rightarrow> string list \<Rightarrow> bot_state \<times> message list" where
  "leave_queue st0 c args =
     (case get_player st0 c of (st, p) \<Rightarrow>
        let channel_ids = (if args \<noteq> [] then map fst (channel_queues st) else [channel c]);
            cq1 = foldl (\<lambda>cq channel_id. discard_player cq channel_id p)
                        (channel_queues st) channel_ids
        in (case get_current_queue_embed cq1 (channel c) of (cq2, table) \<Rightarrow>
              (st\<lparr>channel_queues := cq2\<rparr>, [RemovedFromQueue p (args \<noteq> []) table])))"

text \<open>
  The command \<open>cancel_game\<close>: \<open>.one()\<close> raises unless exactly one game has the id; the
  game is then deleted. What becomes of its participant rows is decided by the ORM
  mapping; the model leaves them, and without their game no query joins them.
\<close>

definition cancel_game :: "bot_state \<Rightarrow> nat \<Rightarrow> error + bot_state \<times> message list" where
  "cancel_game st i =
     (case filter (\<lambda>g. gid g = i) (games st) of
        [] \<Rightarrow> Inl NoResultFound
      | [game] \<Rightarrow> Inr (st\<lparr>games := filter (\<lambda>g. gid g \<noteq> i) (games st)\<rparr>,
                        [GameCancelled (gid game)])
      | _ \<Rightarrow> Inl MultipleResultsFound)"

text \<open>\<open>update_trueskill\<close>: the body is \<open>pass\<close>.\<close>

definition update_trueskill :: "bot_state \<Rightarrow> game \<Rightarrow> bot_state" where
  "update_trueskill st game = st"

text \<open>
  \<open>score_game\<close>. Unpacking the result of \<open>get_last\<close> raises \<open>TypeError\<close> for a player
  without any game, and nothing catches it here. The winner is written to the game
  returned by \<open>get_last\<close>, the row with its id.
\<close>

definition score_game :: "bot_state \<Rightarrow> ctx \<Rightarrow> bool \<Rightarrow> error + bot_state \<times> message list" where
  "score_game st0 c result =
     (case get_player st0 c of (st, p) \<Rightarrow>
        (case get_last st p of
           None \<Rightarrow> Inl TypeError
         | Some (game, game_participant) \<Rightarrow>
             let previous_winner = winner game;
                 new_winner = (if team game_participant = Blue \<and> result then Blue else Red);
                 st1 = st\<lparr>games := map (\<lambda>g. if gid g = gid game
                                               then g\<lparr>winner := Some new_winner\<rparr> else g)
                                        (games st)\<rparr>;
                 sent = (if previous_winner \<noteq> None \<and> previous_winner \<noteq> Some new_winner
                         then [GameResultChanged (gid game), RatingsRecomputed (gid game)]
                         else [])
             in Inr (update_trueskill st1 (game\<lparr>winner := Some new_winner\<rparr>), sent)))"

text \<open>
  The commands \<open>won\<close> and \<open>lost\<close>, invoked without the optional arguments, so that
  \<open>update_champion\<close> returns at its first line.
\<close>

definition won :: "bot_state \<Rightarrow> ctx \<Rightarrow> error + bot_state \<times> message list" where
  "won st c = score_game st c True"

definition lost :: "bot_state \<Rightarrow> ctx \<Rightarrow> error + bot_state \<times> message list" where
  "lost st c = score_game st c False"

text \<open>The proposals among the messages of a command, each with its mismatch flag.\<close>

fun proposals :: "message list \<Rightarrow> (composition \<times> bool) list" where
  "proposals [] = []"
| "proposals (ProposedGame ps mismatch # ms) = (ps, mismatch) # proposals ms"
| "proposals (m # ms) = proposals ms"

section \<open>Auxiliary notions\<close>

text \<open>
  What the maximum search maintains: the best composition so far is either the initial
  empty dictionary or fills the ten slots with ten different players; and its score is
  \<open>-1\<close> exactly as long as the dictionary is empty.
\<close>

definition sound :: "composition \<Rightarrow> bool" where
  "sound ps = (ps = [] \<or> (map fst ps = slots \<and> distinct (map snd ps)))"

definition scored :: "composition \<times> real \<Rightarrow> bool" where
  "scored best = (if fst best = [] then snd best = - 1 else - 1 < snd best)"

text \<open>What the loop of \<open>queue\<close> establishes for a role: a rating exists and the player waits.\<close>

definition queued :: "bot_state \<Rightarrow> channel_id \<Rightarrow> player \<Rightarrow> role \<Rightarrow> bool" where
  "queued st c p r = (ratings st (p, r) \<noteq> None \<and> p \<in> set (snapshot (channel_queues st) c r))"

text \<open>
  The games of a player that have no recorded winner, latest or not (what the spec calls
  the player's unresolved games).
\<close>

definition unresolved_games :: "bot_state \<Rightarrow> player \<Rightarrow> game list" where
  "unresolved_games st p =
     [g. g \<leftarrow> games st, gp \<leftarrow> participants st,
         game_id gp = gid g \<and> player_id gp = p, winner g = None]"

text \<open>The team a player of team \<open>t\<close> plays against.\<close>

fun opposing :: "team \<Rightarrow> team" where
  "opposing Blue = Red"
| "opposing Red = Blue"

section \<open>Example states\<close>

text \<open>
  A queue snapshot: channel 7, two players in each role, and player 10 waiting for both
  top and jungle; and the composition the search finds first in it.
\<close>

definition demo_queues :: queues where
  "demo_queues =
     [(7, (\<lambda>r. case r of Top \<Rightarrow> [10, 11] | Jungle \<Rightarrow> [12, 13, 10] | Mid \<Rightarrow> [14, 15]
                   | Bot \<Rightarrow> [16, 17] | Support \<Rightarrow> [18, 19]))]"

definition demo_players :: composition where
  "demo_players =
     [((Blue, Top), 10), ((Red, Top), 11), ((Blue, Jungle), 12), ((Red, Jungle), 13),
      ((Blue, Mid), 14), ((Red, Mid), 15), ((Blue, Bot), 16), ((Red, Bot), 17),
      ((Blue, Support), 18), ((Red, Support), 19)]"

text \<open>
  Two channels: channel 7 lacks one support player for a match, and player 10 also waits
  for top in channel 8. No games have been played, and nobody has a rating.
\<close>

definition waiting_room :: queues where
  "waiting_room =
     [(7, (\<lambda>r. case r of Top \<Rightarrow> [10, 11] | Jungle \<Rightarrow> [12, 13, 10] | Mid \<Rightarrow> [14, 15]
                   | Bot \<Rightarrow> [16, 17] | Support \<Rightarrow> [18])),
      (8, (\<lambda>r. case r of Top \<Rightarrow> [10] | Jungle \<Rightarrow> [] | Mid \<Rightarrow> [] | Bot \<Rightarrow> [] | Support \<Rightarrow> []))]"

definition lobby :: bot_state where
  "lobby = \<lparr>channel_queues = waiting_room, known_players = Map.empty, ratings = Map.empty,
             games = [], participants = []\<rparr>"

text \<open>A command context, and the values a new rating starts from in the examples.\<close>

definition as_author :: "player \<Rightarrow> channel_id \<Rightarrow> ctx" where
  "as_author p ch = \<lparr>author_id = p, author_name = ''someone'', channel = ch\<rparr>"

definition fresh_rating :: "player \<Rightarrow> role \<Rightarrow> rating" where
  "fresh_rating p r = \<lparr>mu = 25, sigma = 25 / 3\<rparr>"

text \<open>
  States with games. \<open>seats\<close> lists the participant rows of a game with the given
  composition. In \<open>playing\<close> game 1 has no winner yet and every rating is a fresh one;
  in \<open>played\<close> blue has won game 1; in \<open>played_twice\<close> game 1 still has no winner while
  the later game 2 has one.
\<close>

definition seats :: "nat \<Rightarrow> composition \<Rightarrow> game_participant list" where
  "seats i ps =
     map (\<lambda>((t, r), p). \<lparr>game_id = i, player_id = p, team = t, role = r, champion_id = None\<rparr>) ps"

definition playing :: bot_state where
  "playing = lobby\<lparr>ratings := (\<lambda>(p, r). Some (fresh_rating p r)),
                    games := [\<lparr>gid = 1, date = 100, winner = None\<rparr>],
                    participants := seats 1 demo_players\<rparr>"

definition played :: bot_state where
  "played = lobby\<lparr>games := [\<lparr>gid = 1, date = 100, winner = Some Blue\<rparr>],
                   participants := seats 1 demo_players\<rparr>"

definition played_twice :: bot_state where
  "played_twice = lobby\<lparr>games := [\<lparr>gid = 1, date = 100, winner = None\<rparr>,
                                    \<lparr>gid = 2, date = 200, winner = Some Blue\<rparr>],
                         participants := seats 1 demo_players @ seats 2 demo_players\<rparr>"

section \<open>Properties of the matchmaking search\<close>

lemma make_players_keys_from:
  "map fst (concat (map (\<lambda>(role_idx, players_tuple).
                    [((Blue, roles_list ! role_idx), fst players_tuple),
                     ((Red, roles_list ! role_idx), snd players_tuple)])
                 (enumerate n tc)))
     = concat (map (\<lambda>i. [(Blue, roles_list ! i), (Red, roles_list ! i)]) [n..<n + length tc])"
proof (induction tc arbitrary: n)
  case Nil
  show ?case by simp
next
  case (Cons t tc)
  have "[n..<n + length (t # tc)] = n # [Suc n..<Suc n + length tc]"
    by (subst upt_rec) simp
  with Cons [of "Suc n"] show ?case by simp
qed

lemma make_players_keys:
  "map fst (make_players tc) =
     concat (map (\<lambda>i. [(Blue, roles_list ! i), (Red, roles_list ! i)]) [0..<length tc])"
  using make_players_keys_from [of 0 tc] by (simp add: make_players_def)

lemma length_make_players: "length (make_players tc) = 2 * length tc"
proof -
  have "length (make_players tc) = length (map fst (make_players tc))" by simp
  also have "\<dots> = 2 * length tc"
    unfolding make_players_keys by (simp add: length_concat comp_def sum_list_triv)
  finally show ?thesis .
qed

lemma upt_five: "[0..<5] = [0, 1, 2, 3, 4]"
  by (simp add: upt_conv_Cons)

text \<open>
  A team composition drawn from the product of the five per-role lists has five entries,
  so \<open>roles_list[role_idx]\<close> is always in range and the dictionary has the ten slots as
  its keys, each once.
\<close>

lemma slots_of_five: "length tc = 5 \<Longrightarrow> map fst (make_players tc) = slots"
  by (simp add: make_players_keys slots_def roles_list_def upt_five)

lemma length_slots: "length slots = 10"
  by (simp add: slots_def roles_list_def)

lemma distinct_slots: "distinct slots"
  by (simp add: slots_def roles_list_def)

lemma try_composition_sound:
  assumes "sound (fst best)" and "length tc = 5"
  shows "sound (fst (try_composition wr best tc))"
proof (cases best)
  case (Pair bp bs)
  show ?thesis
  proof (cases "length (remdups (map snd (make_players tc))) = 10")
    case True
    have "length (map snd (make_players tc)) = 10"
      using assms(2) by (simp add: length_make_players)
    with True have "distinct (map snd (make_players tc))"
      by (metis length_remdups_eq remdups_id_iff_distinct)
    then have "sound (make_players tc)"
      using assms(2) by (simp add: sound_def slots_of_five)
    with assms(1) Pair True show ?thesis
      by (simp add: try_composition_def Let_def)
  next
    case False
    with assms(1) Pair show ?thesis by (simp add: try_composition_def Let_def)
  qed
qed

lemma foldl_try_sound:
  "sound (fst best) \<Longrightarrow> \<forall>tc\<in>set tcs. length tc = 5 \<Longrightarrow>
   sound (fst (foldl (try_composition wr) best tcs))"
  by (induction tcs arbitrary: best) (simp_all add: try_composition_sound)

lemma match_game_sound:
  assumes "match_game wr cq ch = (cq', Some players, s)"
  shows "sound players"
proof -
  obtain cq1 q where g: "getitem cq ch = (cq1, q)" by (cases "getitem cq ch")
  let ?perms = "map (\<lambda>r. permutations2 (q r)) roles_list"
  from assms g have p: "players = fst (foldl (try_composition wr) ([], -1) (product_lists ?perms))"
    by (simp add: match_game_def Let_def split: if_splits)
  have "\<forall>tc\<in>set (product_lists ?perms). length tc = 5"
    by (auto dest: in_set_product_lists_length simp: roles_list_def)
  then show ?thesis
    unfolding p by (intro foldl_try_sound) (simp add: sound_def)
qed

lemma match_game_queues: "fst (match_game wr cq ch) = fst (getitem cq ch)"
  by (simp add: match_game_def Let_def split: prod.splits)

lemma getitem_demo: "fst (getitem demo_queues 7) = demo_queues"
proof -
  have "map_of demo_queues 7 = Some (snd (hd demo_queues))"
    by (simp add: demo_queues_def)
  then show ?thesis by (simp add: getitem_def)
qed

lemma match_game_demo:
  "match_game (\<lambda>c. 1 / 2) demo_queues 7 = (demo_queues, Some demo_players, 0)"
proof -
  have "snd (match_game (\<lambda>c. 1 / 2) demo_queues 7) = (Some demo_players, 0)"
    by (simp add: match_game_def demo_queues_def demo_players_def getitem_def roles_list_def
        permutations2_def try_composition_def make_players_def Let_def enumerate_eq_zip
        upt_conv_Cons)
  moreover have "fst (match_game (\<lambda>c. 1 / 2) demo_queues 7) = demo_queues"
    by (simp add: match_game_queues getitem_demo)
  ultimately show ?thesis by (simp add: prod_eq_iff)
qed

text \<open>
  C3. Whenever \<open>match_game\<close> returns a non-empty composition, its keys are the ten
  (team, role) slots and the ten players assigned to them are pairwise distinct, whatever
  the queues hold; a player waiting in several role queues is drafted at most once.
\<close>

theorem match_game_distinct:
  assumes "match_game wr cq ch = (cq', Some players, s)" and "players \<noteq> []"
  shows "map fst players = slots \<and> length players = 10 \<and> distinct (map snd players)"
proof -
  from assms have *: "map fst players = slots" "distinct (map snd players)"
    using match_game_sound [of wr cq ch cq' players s] by (simp_all add: sound_def)
  from *(1) have "length players = 10"
    by (metis length_map length_slots)
  with * show ?thesis by simp
qed

theorem match_game_distinct_witness:
  "match_game (\<lambda>c. 1 / 2) demo_queues 7 = (demo_queues, Some demo_players, 0)
   \<and> demo_players \<noteq> []
   \<and> 10 \<in> set (snd (hd demo_queues) Top) \<and> 10 \<in> set (snd (hd demo_queues) Jungle)
   \<and> map fst demo_players = slots \<and> length demo_players = 10
   \<and> distinct (map snd demo_players)"
proof -
  have ne: "demo_players \<noteq> []" by (simp add: demo_players_def)
  have twice: "10 \<in> set (snd (hd demo_queues) Top) \<and> 10 \<in> set (snd (hd demo_queues) Jungle)"
    by (simp add: demo_queues_def)
  from match_game_distinct [OF match_game_demo ne] match_game_demo ne twice
  show ?thesis by simp
qed

section \<open>Properties of the queue store\<close>

text \<open>The list that stands for a set stays free of duplicates.\<close>

lemma distinct_set_add: "distinct xs \<Longrightarrow> distinct (set_add x xs)"
  by (simp add: set_add_def)

lemma distinct_set_discard: "distinct xs \<Longrightarrow> distinct (set_discard x xs)"
  by (simp add: set_discard_def distinct_removeAll)

lemma snapshot_map_of:
  "snapshot cq c = (case map_of cq c of None \<Rightarrow> default_factory | Some q \<Rightarrow> q)"
  by (simp add: snapshot_def getitem_def split: option.splits)

lemma map_of_getitem:
  "map_of (fst (getitem cq c)) =
     (case map_of cq c of None \<Rightarrow> (map_of cq)(c \<mapsto> default_factory) | Some q \<Rightarrow> map_of cq)"
  by (simp add: getitem_def update_conv' split: option.splits)

lemma snd_getitem: "snd (getitem cq c) = snapshot cq c"
  by (simp add: snapshot_def)

lemma snapshot_getitem: "snapshot (fst (getitem cq c)) c' = snapshot cq c'"
  by (simp add: snapshot_map_of map_of_getitem split: option.splits)

lemma getitem_idem: "getitem (fst (getitem cq c)) c = getitem cq c"
  by (auto simp add: getitem_def update_conv' split: option.splits)

lemma map_of_getitem_other: "c' \<noteq> c \<Longrightarrow> map_of (fst (getitem cq c)) c' = map_of cq c'"
  by (simp add: map_of_getitem split: option.splits)

lemma map_of_add_player:
  "map_of (add_player cq c r p) = (map_of cq)(c \<mapsto> (snapshot cq c)(r := set_add p (snapshot cq c r)))"
  by (auto simp add: add_player_def snapshot_def getitem_def update_conv' split: option.splits prod.splits)

lemma map_of_discard_player:
  "map_of (discard_player cq c p) = (map_of cq)(c \<mapsto> (\<lambda>r. set_discard p (snapshot cq c r)))"
  by (auto simp add: discard_player_def snapshot_def getitem_def update_conv' split: option.splits prod.splits)

lemma snapshot_add_player:
  "snapshot (add_player cq c r p) c' =
     (if c' = c then (snapshot cq c)(r := set_add p (snapshot cq c r)) else snapshot cq c')"
  by (simp add: snapshot_map_of [of "add_player cq c r p"] map_of_add_player)
     (simp add: snapshot_map_of)

lemma snapshot_discard_player:
  "snapshot (discard_player cq c p) c' =
     (if c' = c then (\<lambda>r. set_discard p (snapshot cq c r)) else snapshot cq c')"
  by (simp add: snapshot_map_of [of "discard_player cq c p"] map_of_discard_player)
     (simp add: snapshot_map_of)

lemma set_discard_idem: "set_discard p (set_discard p xs) = set_discard p xs"
  by (simp add: set_discard_def)

lemma snapshot_discard_all:
  "snapshot (foldl (\<lambda>cq k. discard_player cq k p) cq ks) c =
     (if c \<in> set ks then (\<lambda>r. set_discard p (snapshot cq c r)) else snapshot cq c)"
proof (induction ks arbitrary: cq)
  case Nil
  show ?case by simp
next
  case (Cons k ks)
  show ?case
    by (simp add: Cons.IH snapshot_discard_player set_discard_idem)
qed

lemma map_of_discard_one:
  "c' \<noteq> c \<Longrightarrow> map_of (discard_player cq c p) c' = map_of cq c'"
  by (simp add: map_of_discard_player)

lemma snapshot_absent: "c \<notin> set (map fst cq) \<Longrightarrow> snapshot cq c = default_factory"
  by (simp add: snapshot_map_of map_of_eq_None_iff [THEN iffD2])

lemma discard_default: "set_discard p (default_factory r) = default_factory r"
  by (simp add: set_discard_def default_factory_def)

lemma get_player_fst: "fst (get_player st c) = st\<lparr>known_players := (known_players st)(author_id c \<mapsto> author_name c)\<rparr>"
  and get_player_snd: "snd (get_player st c) = author_id c"
  by (simp_all add: get_player_def)

text \<open>
  C10. \<open>leave_queue\<close> without arguments removes the author from the role queues of the
  current channel only: the entries of every other channel stay as they are. With any
  non-empty argument list, whatever the tokens, the author is removed from the role
  queues of every channel.
\<close>

theorem leave_queue_scope:
  assumes "leave_queue st c args = (st', sent)"
  shows "(args = [] \<longrightarrow>
            (\<forall>ch. ch \<noteq> channel c \<longrightarrow> map_of (channel_queues st') ch = map_of (channel_queues st) ch)
          \<and> (\<forall>r. snapshot (channel_queues st') (channel c) r
                  = set_discard (author_id c) (snapshot (channel_queues st) (channel c) r)))
       \<and> (args \<noteq> [] \<longrightarrow>
            (\<forall>ch r. snapshot (channel_queues st') ch r
                     = set_discard (author_id c) (snapshot (channel_queues st) ch r)
                   \<and> author_id c \<notin> set (snapshot (channel_queues st') ch r)))"
proof (intro conjI impI)
  assume a: "args = []"
  from assms a have cq: "channel_queues st' =
      fst (getitem (discard_player (channel_queues st) (channel c) (author_id c)) (channel c))"
    by (auto simp add: leave_queue_def get_player_def get_current_queue_embed_def Let_def
        split: prod.splits)
  show "\<forall>ch. ch \<noteq> channel c \<longrightarrow> map_of (channel_queues st') ch = map_of (channel_queues st) ch"
    by (simp add: cq map_of_getitem_other map_of_discard_one)
  show "\<forall>r. snapshot (channel_queues st') (channel c) r
                  = set_discard (author_id c) (snapshot (channel_queues st) (channel c) r)"
    by (simp add: cq snapshot_getitem snapshot_discard_player)
next
  assume a: "args \<noteq> []"
  let ?cq = "channel_queues st" and ?p = "author_id c"
  from assms a have cq: "channel_queues st' =
      fst (getitem (foldl (\<lambda>cq k. discard_player cq k ?p) ?cq (map fst ?cq)) (channel c))"
    by (auto simp add: leave_queue_def get_player_def get_current_queue_embed_def Let_def
        split: prod.splits)
  have eq: "snapshot (channel_queues st') ch r = set_discard ?p (snapshot ?cq ch r)" for ch r
  proof (cases "ch \<in> set (map fst ?cq)")
    case True
    then show ?thesis by (simp add: cq snapshot_getitem snapshot_discard_all)
  next
    case False
    then have "set_discard ?p (snapshot ?cq ch r) = snapshot ?cq ch r"
      by (simp add: snapshot_absent discard_default)
    with False show ?thesis by (simp add: cq snapshot_getitem snapshot_discard_all)
  qed
  show "\<forall>ch r. snapshot (channel_queues st') ch r = set_discard ?p (snapshot ?cq ch r)
                   \<and> ?p \<notin> set (snapshot (channel_queues st') ch r)"
    by (simp add: eq set_discard_def)
qed

lemma snapshot_lobby:
  "snapshot (channel_queues lobby) 7 Top = [10, 11]"
  "snapshot (channel_queues lobby) 7 Jungle = [12, 13, 10]"
  "snapshot (channel_queues lobby) 8 Top = [10]"
  by (simp_all add: snapshot_map_of lobby_def waiting_room_def)

theorem leave_queue_scope_witness:
  "10 \<notin> set (snapshot (channel_queues (fst (leave_queue lobby (as_author 10 7) []))) 7 Top)
   \<and> 10 \<notin> set (snapshot (channel_queues (fst (leave_queue lobby (as_author 10 7) []))) 7 Jungle)
   \<and> 10 \<in> set (snapshot (channel_queues (fst (leave_queue lobby (as_author 10 7) []))) 8 Top)
   \<and> 10 \<notin> set (snapshot (channel_queues (fst (leave_queue lobby (as_author 10 7) [''all'']))) 8 Top)
   \<and> 10 \<notin> set (snapshot (channel_queues (fst (leave_queue lobby (as_author 10 7) [''please'']))) 8 Top)
   \<and> 10 \<notin> set (snapshot (channel_queues (fst (leave_queue lobby (as_author 10 7) [''please'']))) 7 Top)"
proof -
  let ?c = "as_author 10 7"
  have c: "author_id ?c = 10" "channel ?c = 7" by (simp_all add: as_author_def)
  have none: "leave_queue lobby ?c [] = (fst (leave_queue lobby ?c []), snd (leave_queue lobby ?c []))"
    and all: "leave_queue lobby ?c [''all''] = (fst (leave_queue lobby ?c [''all'']), snd (leave_queue lobby ?c [''all'']))"
    and any: "leave_queue lobby ?c [''please''] = (fst (leave_queue lobby ?c [''please'']), snd (leave_queue lobby ?c [''please'']))"
    by simp_all
  let ?none = "channel_queues (fst (leave_queue lobby ?c []))"
    and ?all = "channel_queues (fst (leave_queue lobby ?c [''all'']))"
    and ?any = "channel_queues (fst (leave_queue lobby ?c [''please'']))"
  from leave_queue_scope [OF none]
  have n1: "map_of ?none 8 = map_of (channel_queues lobby) 8"
    and n2: "\<And>r. snapshot ?none 7 r = set_discard 10 (snapshot (channel_queues lobby) 7 r)"
    by (simp_all add: c)
  from n1 have n3: "snapshot ?none 8 Top = snapshot (channel_queues lobby) 8 Top"
    by (simp add: snapshot_map_of)
  from leave_queue_scope [OF all]
  have a1: "\<And>ch r. snapshot ?all ch r = set_discard 10 (snapshot (channel_queues lobby) ch r)"
    by (simp_all add: c)
  from leave_queue_scope [OF any]
  have a2: "\<And>ch r. snapshot ?any ch r = set_discard 10 (snapshot (channel_queues lobby) ch r)"
    by (simp_all add: c)
  show ?thesis
    by (simp add: n2 n3 a1 a2 snapshot_lobby set_discard_def)
qed

section \<open>Properties of the queue command\<close>

lemma get_last_known_players: "get_last (st\<lparr>known_players := k\<rparr>) p = get_last st p"
  by (simp add: get_last_def)

lemma last_game_ongoing_get_player:
  "last_game_ongoing (fst (get_player st c)) p = last_game_ongoing st p"
  by (simp add: last_game_ongoing_def get_player_def get_last_known_players)

lemma enqueue_role_keeps:
  "known_players (enqueue_role mk c p st r) = known_players st"
  "games (enqueue_role mk c p st r) = games st"
  "participants (enqueue_role mk c p st r) = participants st"
  by (simp_all add: enqueue_role_def Let_def)

lemma enqueue_keeps:
  "known_players (enqueue mk st c p rs) = known_players st"
  "games (enqueue mk st c p rs) = games st"
  "participants (enqueue mk st c p rs) = participants st"
  unfolding enqueue_def
  by (induction rs arbitrary: st; simp add: enqueue_role_keeps)+

lemma set_add_set: "set (set_add x xs) = insert x (set xs)"
  by (auto simp add: set_add_def)

lemma enqueue_role_queued: "queued (enqueue_role mk c p st r) c p r"
  by (simp add: queued_def enqueue_role_def Let_def snapshot_add_player set_add_set)

lemma enqueue_role_mono: "queued st c p r' \<Longrightarrow> queued (enqueue_role mk c p st r) c p r'"
  by (simp add: queued_def enqueue_role_def Let_def snapshot_add_player set_add_set)

lemma foldl_enqueue_mono:
  "queued st c p r' \<Longrightarrow> queued (foldl (enqueue_role mk c p) st rs) c p r'"
  by (induction rs arbitrary: st) (simp_all add: enqueue_role_mono)

lemma enqueue_post: "r \<in> set rs \<Longrightarrow> queued (enqueue mk st c p rs) c p r"
  unfolding enqueue_def
proof (induction rs arbitrary: st)
  case Nil
  then show ?case by simp
next
  case (Cons a rs)
  show ?case
  proof (cases "r = a")
    case True
    then show ?thesis by (simp add: foldl_enqueue_mono enqueue_role_queued)
  next
    case False
    with Cons.prems have "r \<in> set rs" by simp
    then show ?thesis by (simp add: Cons.IH)
  qed
qed

lemma add_player_noop:
  "map_of cq c = Some q \<Longrightarrow> p \<in> set (q r) \<Longrightarrow> add_player cq c r p = cq"
  by (simp add: add_player_def getitem_def set_add_def update_triv)

lemma enqueue_role_noop:
  assumes "queued st c p r" and "map_of (channel_queues st) c \<noteq> None"
  shows "enqueue_role mk c p st r = st"
proof -
  from assms obtain q where q: "map_of (channel_queues st) c = Some q" by auto
  with assms have "p \<in> set (q r)" by (simp add: queued_def snapshot_map_of)
  with q have "add_player (channel_queues st) c r p = channel_queues st"
    by (rule add_player_noop)
  with assms show ?thesis by (auto simp add: enqueue_role_def queued_def)
qed

lemma enqueue_noop:
  assumes "\<forall>r\<in>set rs. queued st c p r" and "map_of (channel_queues st) c \<noteq> None"
  shows "enqueue mk st c p rs = st"
  using assms unfolding enqueue_def
  by (induction rs) (simp_all add: enqueue_role_noop)

lemma getitem_entry: "map_of (fst (getitem cq c)) c \<noteq> None"
  by (simp add: map_of_getitem split: option.splits)

lemma match_game_getitem: "match_game wr (fst (getitem cq c)) c = match_game wr cq c"
  by (simp add: match_game_def getitem_idem)

lemma try_composition_scored:
  assumes "scored best"
  shows "scored (try_composition wr best tc)"
proof (cases best)
  case (Pair bp bs)
  have "make_players tc \<noteq> []" if "length (remdups (map snd (make_players tc))) = 10"
    using that by auto
  with assms Pair show ?thesis
    by (auto simp add: try_composition_def scored_def Let_def split: if_splits)
qed

lemma foldl_try_scored:
  "scored best \<Longrightarrow> scored (foldl (try_composition wr) best tcs)"
  by (induction tcs arbitrary: best) (simp_all add: try_composition_scored)

lemma match_game_result:
  assumes "match_game wr cq c = (cq', players, s)"
  shows "(players = None \<and> s = - 1) \<or> (players = Some [] \<and> s = - 1)
         \<or> (\<exists>ps. players = Some ps \<and> ps \<noteq> [] \<and> - 1 < s)"
proof -
  obtain cq1 q where g: "getitem cq c = (cq1, q)" by (cases "getitem cq c")
  show ?thesis
  proof (cases "list_ex (\<lambda>r. length (q r) < 2) roles_list")
    case True
    with assms g show ?thesis by (simp add: match_game_def)
  next
    case False
    let ?best = "foldl (try_composition wr) ([], - 1)
                   (product_lists (map (\<lambda>r. permutations2 (q r)) roles_list))"
    have "scored ?best" by (rule foldl_try_scored) (simp add: scored_def)
    moreover from assms g False have "players = Some (fst ?best)" "s = snd ?best"
      by (simp_all add: match_game_def Let_def)
    ultimately show ?thesis by (auto simp add: scored_def split: if_splits)
  qed
qed

lemma start_game_Some: "start_game st (Some ps) mismatch = Inr (st, [ProposedGame ps mismatch])"
  by (simp add: start_game_def)

lemma queue_blocked:
  assumes "last_game_ongoing st (author_id c)"
  shows "queue wr mk st c rs = Inr (fst (get_player st c), [LastGameOngoing])"
  using assms last_game_ongoing_get_player [of st c "author_id c"]
  by (simp add: queue_def get_player_def)

lemma queue_admitted:
  assumes "\<not> last_game_ongoing st (author_id c)"
    and "match_game wr (channel_queues (enqueue mk (fst (get_player st c)) (channel c) (author_id c) rs))
           (channel c) = (cq, players, s)"
  shows "\<exists>ps. (- 0.2 < s \<longrightarrow> players = Some ps \<and> ps \<noteq> []) \<and>
          queue wr mk st c rs =
          Inr ((enqueue mk (fst (get_player st c)) (channel c) (author_id c) rs)\<lparr>channel_queues := cq\<rparr>,
               NowInQueue (author_id c) rs
                 (map (\<lambda>r. (r, snapshot (channel_queues
                     (enqueue mk (fst (get_player st c)) (channel c) (author_id c) rs)) (channel c) r))
                   roles_list)
               # (if - 0.1 < s then [ProposedGame ps False]
                  else if - 0.2 < s then [ProposedGame ps True] else []))"
proof -
  let ?st1 = "enqueue mk (fst (get_player st c)) (channel c) (author_id c) rs"
  from assms(1) have g: "\<not> last_game_ongoing (fst (get_player st c)) (author_id c)"
    by (simp add: last_game_ongoing_get_player)
  have m: "match_game wr (fst (getitem (channel_queues ?st1) (channel c))) (channel c) = (cq, players, s)"
    using assms(2) by (simp add: match_game_getitem)
  from match_game_result [OF assms(2)]
  consider "s = - 1" | ps where "players = Some ps" "ps \<noteq> []" by auto
  then show ?thesis
  proof cases
    case 1
    with g m show ?thesis
      by (simp add: queue_def get_player_def get_current_queue_embed_def Let_def snd_getitem
          case_prod_beta)
  next
    case 2
    with g m show ?thesis
      by (intro exI [of _ ps])
         (simp add: queue_def get_player_def get_current_queue_embed_def Let_def snd_getitem
          start_game_Some case_prod_beta)
  qed
qed

lemma proposals_simps:
  "proposals [NowInQueue p rs e] = []"
  "proposals (NowInQueue p rs e # ms) = proposals ms"
  by simp_all

text \<open>
  C4. Let \<open>s\<close> be the score \<open>match_game\<close> returns for the queues as they are after the
  enqueue step (the author passed the guard). If \<open>s > -0.1\<close> the command proposes the
  composition without the mismatch flag; if \<open>-0.2 < s \<le> -0.1\<close> it proposes it with the
  flag; if \<open>s \<le> -0.2\<close> it proposes nothing. In every case the queues read as they did
  after the enqueue step.
\<close>

theorem queue_thresholds:
  assumes "\<not> last_game_ongoing st (author_id c)"
    and "st1 = enqueue mk (fst (get_player st c)) (channel c) (author_id c) rs"
    and "match_game wr (channel_queues st1) (channel c) = (cq, players, s)"
  shows "\<exists>st' sent. queue wr mk st c rs = Inr (st', sent)
      \<and> (- 0.1 < s \<longrightarrow> (\<exists>ps. players = Some ps \<and> ps \<noteq> [] \<and> proposals sent = [(ps, False)]))
      \<and> (- 0.2 < s \<and> s \<le> - 0.1 \<longrightarrow>
            (\<exists>ps. players = Some ps \<and> ps \<noteq> [] \<and> proposals sent = [(ps, True)]))
      \<and> (s \<le> - 0.2 \<longrightarrow> proposals sent = [])
      \<and> (\<forall>ch. snapshot (channel_queues st') ch = snapshot (channel_queues st1) ch)"
proof -
  from assms(3) have cq: "cq = fst (getitem (channel_queues st1) (channel c))"
    using match_game_queues [of wr "channel_queues st1" "channel c"] by simp
  from queue_admitted [OF assms(1) assms(3) [unfolded assms(2)]]
  obtain ps where ps: "- 0.2 < s \<longrightarrow> players = Some ps \<and> ps \<noteq> []"
    and q: "queue wr mk st c rs =
          Inr (st1\<lparr>channel_queues := cq\<rparr>,
               NowInQueue (author_id c) rs
                 (map (\<lambda>r. (r, snapshot (channel_queues st1) (channel c) r)) roles_list)
               # (if - 0.1 < s then [ProposedGame ps False]
                  else if - 0.2 < s then [ProposedGame ps True] else []))"
    unfolding assms(2) by blast
  show ?thesis
    using ps by (simp add: q cq snapshot_getitem)
qed

lemma match_game_reads_snapshot:
  "snapshot cq c = snapshot cq2 c2 \<Longrightarrow> snd (match_game wr cq c) = snd (match_game wr cq2 c2)"
  by (simp add: match_game_def snapshot_def Let_def case_prod_beta)

lemma match_game_demo_const:
  assumes "\<bar>1 / 2 - x\<bar> < 1"
  shows "snd (match_game (\<lambda>c. x) demo_queues 7) = (Some demo_players, - \<bar>1 / 2 - x\<bar>)"
  using assms
  by (simp add: match_game_def demo_queues_def demo_players_def getitem_def roles_list_def
        permutations2_def try_composition_def make_players_def Let_def enumerate_eq_zip
        upt_conv_Cons)

lemma lobby_guard: "\<not> last_game_ongoing lobby p"
  by (simp add: last_game_ongoing_def get_last_def lobby_def)

lemma lobby_joined:
  "snapshot (channel_queues (enqueue mk (fst (get_player lobby (as_author 19 7))) 7 19 [Support])) 7
   = snapshot demo_queues 7"
proof
  fix r
  show "snapshot (channel_queues (enqueue mk (fst (get_player lobby (as_author 19 7))) 7 19 [Support])) 7 r
   = snapshot demo_queues 7 r"
    by (cases r)
       (simp_all add: enqueue_def enqueue_role_def Let_def get_player_def snapshot_add_player
         lobby_def,
        simp_all add: snapshot_map_of waiting_room_def demo_queues_def set_add_def)
qed

lemma lobby_match:
  assumes "\<bar>1 / 2 - x\<bar> < 1"
  shows "\<exists>cq. match_game (\<lambda>c. x)
           (channel_queues (enqueue mk (fst (get_player lobby (as_author 19 7))) 7 19 [Support])) 7
         = (cq, Some demo_players, - \<bar>1 / 2 - x\<bar>)"
  using match_game_reads_snapshot [OF lobby_joined, of "\<lambda>c. x" mk] match_game_demo_const [OF assms]
  by (simp add: prod_eq_iff)

theorem queue_thresholds_witness:
  "(\<exists>st' sent. queue (\<lambda>c. 1 / 2) fresh_rating lobby (as_author 19 7) [Support] = Inr (st', sent)
       \<and> proposals sent = [(demo_players, False)]
       \<and> snapshot (channel_queues st') 7 Support = [18, 19])
   \<and> (\<exists>st' sent. queue (\<lambda>c. 6 / 10) fresh_rating lobby (as_author 19 7) [Support] = Inr (st', sent)
       \<and> proposals sent = [(demo_players, True)]
       \<and> snapshot (channel_queues st') 7 Support = [18, 19])
   \<and> (\<exists>st' sent. queue (\<lambda>c. 7 / 10) fresh_rating lobby (as_author 19 7) [Support] = Inr (st', sent)
       \<and> proposals sent = []
       \<and> snapshot (channel_queues st') 7 Support = [18, 19])"
proof -
  let ?c = "as_author 19 7"
  let ?st1 = "enqueue fresh_rating (fst (get_player lobby ?c)) (channel ?c) (author_id ?c) [Support]"
  have c: "author_id ?c = 19" "channel ?c = 7" by (simp_all add: as_author_def)
  have g: "\<not> last_game_ongoing lobby (author_id ?c)" by (rule lobby_guard)
  have sup: "snapshot (channel_queues ?st1) 7 Support = [18, 19]"
    by (simp add: c lobby_joined) (simp add: snapshot_map_of demo_queues_def)
  obtain cq1 where m1: "match_game (\<lambda>c. 1 / 2) (channel_queues ?st1) (channel ?c)
      = (cq1, Some demo_players, 0)"
    using lobby_match [of "1 / 2" fresh_rating] by (auto simp add: c)
  obtain cq2 where m2: "match_game (\<lambda>c. 6 / 10) (channel_queues ?st1) (channel ?c)
      = (cq2, Some demo_players, - 0.1)"
    using lobby_match [of "6 / 10" fresh_rating] by (auto simp add: c)
  obtain cq3 where m3: "match_game (\<lambda>c. 7 / 10) (channel_queues ?st1) (channel ?c)
      = (cq3, Some demo_players, - 0.2)"
    using lobby_match [of "7 / 10" fresh_rating] by (auto simp add: c)
  from queue_thresholds [OF g refl m1] sup
  have 1: "\<exists>st' sent. queue (\<lambda>c. 1 / 2) fresh_rating lobby ?c [Support] = Inr (st', sent)
       \<and> proposals sent = [(demo_players, False)]
       \<and> snapshot (channel_queues st') 7 Support = [18, 19]"
    by (fastforce simp add: c)
  from queue_thresholds [OF g refl m2] sup
  have 2: "\<exists>st' sent. queue (\<lambda>c. 6 / 10) fresh_rating lobby ?c [Support] = Inr (st', sent)
       \<and> proposals sent = [(demo_players, True)]
       \<and> snapshot (channel_queues st') 7 Support = [18, 19]"
    by (fastforce simp add: c)
  from queue_thresholds [OF g refl m3] sup
  have 3: "\<exists>st' sent. queue (\<lambda>c. 7 / 10) fresh_rating lobby ?c [Support] = Inr (st', sent)
       \<and> proposals sent = []
       \<and> snapshot (channel_queues st') 7 Support = [18, 19]"
    by (fastforce simp add: c)
  from 1 2 3 show ?thesis by blast
qed

lemma get_player_again:
  "fst (get_player (fst (get_player st c)) c) = fst (get_player st c)"
  by (simp add: get_player_def)

lemma last_game_ongoing_cong:
  "games st' = games st \<Longrightarrow> participants st' = participants st \<Longrightarrow>
   last_game_ongoing st' p = last_game_ongoing st p"
  by (simp add: last_game_ongoing_def get_last_def)

lemma latest_in: "latest rows = Some row \<Longrightarrow> row \<in> set rows"
  by (induction rows arbitrary: row) (auto split: option.splits if_splits)

lemma latest_None: "latest rows = None \<longleftrightarrow> rows = []"
  by (cases rows) (auto split: option.splits)

lemma latest_max:
  "latest rows = Some row \<Longrightarrow> row' \<in> set rows \<Longrightarrow> date (fst row') \<le> date (fst row)"
proof (induction rows arbitrary: row)
  case Nil
  then show ?case by simp
next
  case (Cons a rows)
  show ?case
  proof (cases "latest rows")
    case None
    then have "rows = []" by (simp add: latest_None)
    with Cons.prems show ?thesis by simp
  next
    case (Some best)
    have best: "row' \<in> set rows \<Longrightarrow> date (fst row') \<le> date (fst best)"
      using Cons.IH [OF Some] by simp
    from Cons.prems(1) Some
    have "row = (if date (fst a) < date (fst best) then best else a)"
      by (simp split: if_splits)
    with Cons.prems(2) best show ?thesis by (auto split: if_splits)
  qed
qed

lemma queue_outcome:
  "\<exists>st' sent. queue wr mk st c rs = Inr (st', sent) \<and>
     (if last_game_ongoing st (author_id c)
      then sent = [LastGameOngoing] \<and> channel_queues st' = channel_queues st
      else LastGameOngoing \<notin> set sent
           \<and> (\<forall>r\<in>set rs. author_id c \<in> set (snapshot (channel_queues st') (channel c) r)))"
proof (cases "last_game_ongoing st (author_id c)")
  case True
  then show ?thesis by (simp add: queue_blocked get_player_def)
next
  case False
  let ?st1 = "enqueue mk (fst (get_player st c)) (channel c) (author_id c) rs"
  obtain cq players s where m: "match_game wr (channel_queues ?st1) (channel c) = (cq, players, s)"
    by (cases "match_game wr (channel_queues ?st1) (channel c)")
  then have cq: "cq = fst (getitem (channel_queues ?st1) (channel c))"
    using match_game_queues [of wr "channel_queues ?st1" "channel c"] by simp
  from queue_admitted [OF False m] obtain sent
    where q: "queue wr mk st c rs = Inr (?st1\<lparr>channel_queues := cq\<rparr>, sent)"
      and s: "LastGameOngoing \<notin> set sent"
    by (auto split: if_splits)
  have "\<forall>r\<in>set rs. author_id c \<in> set (snapshot cq (channel c) r)"
    using enqueue_post [of _ rs mk "fst (get_player st c)" "channel c" "author_id c"]
    by (simp add: cq snapshot_getitem queued_def)
  with False q s show ?thesis by simp
qed

text \<open>
  C6. The guard of \<open>queue\<close> looks at the author's most recent game, the one \<open>get_last\<close>
  returns. Exactly when that game has no winner the join is rejected: the command posts
  that the last game is still ongoing and leaves every queue as it was. Otherwise, also
  for an author without any game or with an older game that has no winner, the author
  is admitted: each role asked for holds the author afterwards. The command never raises.
\<close>

theorem queue_guard:
  "\<exists>st' sent. queue wr mk st c rs = Inr (st', sent) \<and>
     (if last_game_ongoing st (author_id c)
      then sent = [LastGameOngoing] \<and> channel_queues st' = channel_queues st
      else LastGameOngoing \<notin> set sent
           \<and> (\<forall>r\<in>set rs. author_id c \<in> set (snapshot (channel_queues st') (channel c) r)))"
  by (rule queue_outcome)

text \<open>
  C9. Joining twice is joining once: when the command has run, running it again with the
  same author, channel and roles returns the very same state (queues, ratings and
  tables) and posts the same messages.
\<close>

theorem queue_idempotent:
  assumes "queue wr mk st c rs = Inr (st', sent)"
  shows "queue wr mk st' c rs = Inr (st', sent)"
proof (cases "last_game_ongoing st (author_id c)")
  case True
  with assms have st': "st' = fst (get_player st c)" and sent: "sent = [LastGameOngoing]"
    by (simp_all add: queue_blocked)
  from True have "last_game_ongoing st' (author_id c)"
    by (simp add: st' last_game_ongoing_get_player)
  then show ?thesis
    by (simp add: queue_blocked sent) (simp add: st' get_player_again)
next
  case False
  let ?p = "author_id c" and ?ch = "channel c"
  let ?st1 = "enqueue mk (fst (get_player st c)) ?ch ?p rs"
  obtain cq players s where m: "match_game wr (channel_queues ?st1) ?ch = (cq, players, s)"
    by (cases "match_game wr (channel_queues ?st1) ?ch")
  then have cq: "cq = fst (getitem (channel_queues ?st1) ?ch)"
    using match_game_queues [of wr "channel_queues ?st1" ?ch] by simp
  from queue_admitted [OF False m] assms obtain ps
    where ps: "- 0.2 < s \<longrightarrow> players = Some ps \<and> ps \<noteq> []"
      and st': "st' = ?st1\<lparr>channel_queues := cq\<rparr>"
      and sent: "sent = NowInQueue ?p rs
                 (map (\<lambda>r. (r, snapshot (channel_queues ?st1) ?ch r)) roles_list)
               # (if - 0.1 < s then [ProposedGame ps False]
                  else if - 0.2 < s then [ProposedGame ps True] else [])"
    by auto
  have "last_game_ongoing st' ?p = last_game_ongoing (fst (get_player st c)) ?p"
    by (rule last_game_ongoing_cong) (simp_all add: st' enqueue_keeps)
  with False have guard: "\<not> last_game_ongoing st' ?p"
    by (simp add: last_game_ongoing_get_player)
  have known: "fst (get_player st' c) = st'"
    by (simp add: st' get_player_def enqueue_keeps)
  have "\<forall>r\<in>set rs. queued st' ?ch ?p r"
    using enqueue_post [of _ rs mk "fst (get_player st c)" ?ch ?p]
    by (simp add: queued_def st' cq snapshot_getitem)
  moreover have "map_of (channel_queues st') ?ch \<noteq> None"
    by (simp add: st' cq getitem_entry)
  ultimately have again: "enqueue mk st' ?ch ?p rs = st'"
    by (rule enqueue_noop)
  have m': "match_game wr (channel_queues (enqueue mk (fst (get_player st' c)) ?ch ?p rs)) ?ch
            = (cq, players, s)"
    using m by (simp add: known again) (simp add: st' cq match_game_getitem)
  have snap: "snapshot (channel_queues st') ?ch = snapshot (channel_queues ?st1) ?ch"
    by (simp add: st' cq snapshot_getitem)
  from queue_admitted [OF guard m'] obtain ps'
    where ps': "- 0.2 < s \<longrightarrow> players = Some ps' \<and> ps' \<noteq> []"
      and q: "queue wr mk st' c rs =
          Inr (st'\<lparr>channel_queues := cq\<rparr>,
               NowInQueue ?p rs (map (\<lambda>r. (r, snapshot (channel_queues st') ?ch r)) roles_list)
               # (if - 0.1 < s then [ProposedGame ps' False]
                  else if - 0.2 < s then [ProposedGame ps' True] else []))"
    unfolding known again by blast
  have "st'\<lparr>channel_queues := cq\<rparr> = st'" by (simp add: st')
  with q ps ps' show ?thesis
    by (auto simp add: sent snap)
qed

section \<open>Evaluation on the example states\<close>

lemma get_last_playing:
  "get_last playing 10 = Some (\<lparr>gid = 1, date = 100, winner = None\<rparr>,
      \<lparr>game_id = 1, player_id = 10, team = Blue, role = Top, champion_id = None\<rparr>)"
  "get_last playing 11 = Some (\<lparr>gid = 1, date = 100, winner = None\<rparr>,
      \<lparr>game_id = 1, player_id = 11, team = Red, role = Top, champion_id = None\<rparr>)"
  by (simp_all add: get_last_def playing_def lobby_def seats_def demo_players_def)

lemma get_last_played:
  "get_last played 10 = Some (\<lparr>gid = 1, date = 100, winner = Some Blue\<rparr>,
      \<lparr>game_id = 1, player_id = 10, team = Blue, role = Top, champion_id = None\<rparr>)"
  by (simp_all add: get_last_def played_def lobby_def seats_def demo_players_def)

lemma get_last_played_twice:
  "get_last played_twice 10 = Some (\<lparr>gid = 2, date = 200, winner = Some Blue\<rparr>,
      \<lparr>game_id = 2, player_id = 10, team = Blue, role = Top, champion_id = None\<rparr>)"
  by (simp_all add: get_last_def played_twice_def lobby_def seats_def demo_players_def)

lemma unresolved_played_twice:
  "unresolved_games played_twice 10 = [\<lparr>gid = 1, date = 100, winner = None\<rparr>]"
  by (simp add: unresolved_games_def played_twice_def lobby_def seats_def demo_players_def)

lemma unresolved_played: "unresolved_games played 10 = []"
  by (simp add: unresolved_games_def played_def lobby_def seats_def demo_players_def)

theorem queue_guard_counterexample:
  "unresolved_games played_twice 10 = [\<lparr>gid = 1, date = 100, winner = None\<rparr>]
   \<and> (\<exists>st' sent. queue (\<lambda>c. 1 / 2) fresh_rating played_twice (as_author 10 7) [Mid] = Inr (st', sent)
        \<and> LastGameOngoing \<notin> set sent
        \<and> 10 \<in> set (snapshot (channel_queues st') 7 Mid))"
proof -
  have "\<not> last_game_ongoing played_twice (author_id (as_author 10 7))"
    by (simp add: last_game_ongoing_def as_author_def get_last_played_twice)
  with queue_outcome [of "\<lambda>c. 1 / 2" fresh_rating played_twice "as_author 10 7" "[Mid]"]
  show ?thesis
    by (simp add: unresolved_played_twice) (simp add: as_author_def)
qed

theorem queue_guard_witness:
  "(\<exists>st'. queue (\<lambda>c. 1 / 2) fresh_rating playing (as_author 10 7) [Mid] = Inr (st', [LastGameOngoing])
        \<and> channel_queues st' = channel_queues playing)
   \<and> (\<exists>st' sent. queue (\<lambda>c. 1 / 2) fresh_rating lobby (as_author 19 7) [Support] = Inr (st', sent)
        \<and> LastGameOngoing \<notin> set sent
        \<and> 19 \<in> set (snapshot (channel_queues st') 7 Support))"
proof -
  have 1: "last_game_ongoing playing (author_id (as_author 10 7))"
    by (simp add: last_game_ongoing_def as_author_def get_last_playing)
  have 2: "\<not> last_game_ongoing lobby (author_id (as_author 19 7))"
    by (rule lobby_guard)
  from 1 queue_guard [of "\<lambda>c. 1 / 2" fresh_rating playing "as_author 10 7" "[Mid]"]
  have a: "\<exists>st'. queue (\<lambda>c. 1 / 2) fresh_rating playing (as_author 10 7) [Mid] = Inr (st', [LastGameOngoing])
        \<and> channel_queues st' = channel_queues playing"
    by auto
  from 2 queue_guard [of "\<lambda>c. 1 / 2" fresh_rating lobby "as_author 19 7" "[Support]"]
  have b: "\<exists>st' sent. queue (\<lambda>c. 1 / 2) fresh_rating lobby (as_author 19 7) [Support] = Inr (st', sent)
        \<and> LastGameOngoing \<notin> set sent
        \<and> 19 \<in> set (snapshot (channel_queues st') 7 Support)"
    by (simp add: as_author_def)
  from a b show ?thesis by blast
qed

theorem queue_idempotent_witness:
  "\<exists>st' sent. queue (\<lambda>c. 1 / 2) fresh_rating lobby (as_author 19 7) [Support] = Inr (st', sent)
      \<and> queue (\<lambda>c. 1 / 2) fresh_rating st' (as_author 19 7) [Support] = Inr (st', sent)
      \<and> 19 \<in> set (snapshot (channel_queues st') 7 Support)"
proof -
  from lobby_guard [of "author_id (as_author 19 7)"]
    queue_outcome [of "\<lambda>c. 1 / 2" fresh_rating lobby "as_author 19 7" "[Support]"]
  obtain st' sent
    where q: "queue (\<lambda>c. 1 / 2) fresh_rating lobby (as_author 19 7) [Support] = Inr (st', sent)"
      and w: "19 \<in> set (snapshot (channel_queues st') 7 Support)"
    by (auto simp add: as_author_def)
  from queue_idempotent [OF q] q w show ?thesis by blast
qed

section \<open>Properties of result reports and cancellation\<close>

lemma latest_map:
  assumes "\<And>g. date (f g) = date g"
  shows "latest (map (\<lambda>(g, gp). (f g, gp)) rows) = map_option (\<lambda>(g, gp). (f g, gp)) (latest rows)"
  by (induction rows) (auto simp add: assms split: option.splits)

lemma rows_map:
  assumes "\<And>g. gid (f g) = gid g"
  shows "[(g, gp). g \<leftarrow> map f gs, gp \<leftarrow> ps, game_id gp = gid g \<and> player_id gp = p]
       = map (\<lambda>(g, gp). (f g, gp)) [(g, gp). g \<leftarrow> gs, gp \<leftarrow> ps, game_id gp = gid g \<and> player_id gp = p]"
proof (induction gs)
  case Nil
  show ?case by simp
next
  case (Cons g gs)
  have "concat (map (\<lambda>gp. if game_id gp = gid g \<and> player_id gp = p then [(f g, gp)] else []) ps)
      = map (\<lambda>(g, gp). (f g, gp))
          (concat (map (\<lambda>gp. if game_id gp = gid g \<and> player_id gp = p then [(g, gp)] else []) ps))"
    by (induction ps) simp_all
  with Cons show ?case by (simp add: assms)
qed

lemma get_last_rescored:
  assumes "get_last st p = Some (g, gp)"
    and "games st' = map (\<lambda>g'. if gid g' = gid g then g'\<lparr>winner := Some w\<rparr> else g') (games st)"
    and "participants st' = participants st"
  shows "get_last st' p = Some (g\<lparr>winner := Some w\<rparr>, gp)"
proof -
  let ?f = "\<lambda>g'. if gid g' = gid g then g'\<lparr>winner := Some w\<rparr> else g'"
  have "get_last st' p = map_option (\<lambda>(g, gp). (?f g, gp)) (get_last st p)"
    unfolding get_last_def assms(2,3)
    by (subst rows_map [of ?f]) (simp_all add: latest_map [of ?f])
  with assms(1) show ?thesis by simp
qed

lemma score_game_Some:
  assumes "get_last st (author_id c) = Some (g, gp)"
  shows "score_game st c result =
     Inr ((fst (get_player st c))\<lparr>games :=
             map (\<lambda>g'. if gid g' = gid g
                        then g'\<lparr>winner := Some (if team gp = Blue \<and> result then Blue else Red)\<rparr>
                        else g') (games st)\<rparr>,
          if winner g \<noteq> None \<and> winner g \<noteq> Some (if team gp = Blue \<and> result then Blue else Red)
          then [GameResultChanged (gid g), RatingsRecomputed (gid g)] else [])"
  using assms
  by (simp add: score_game_def get_player_def get_last_known_players update_trueskill_def Let_def)

lemma score_game_None:
  assumes "get_last st (author_id c) = None"
  shows "score_game st c result = Inl TypeError"
  using assms
  by (simp add: score_game_def get_player_def get_last_known_players)

lemma score_game_scores_last:
  assumes "get_last st (author_id c) = Some (g, gp)"
  shows "\<exists>st'. score_game st c result =
           Inr (st', if winner g \<noteq> None
                        \<and> winner g \<noteq> Some (if team gp = Blue \<and> result then Blue else Red)
                     then [GameResultChanged (gid g), RatingsRecomputed (gid g)] else [])
         \<and> get_last st' (author_id c)
             = Some (g\<lparr>winner := Some (if team gp = Blue \<and> result then Blue else Red)\<rparr>, gp)
         \<and> ratings st' = ratings st \<and> channel_queues st' = channel_queues st"
proof -
  let ?w = "if team gp = Blue \<and> result then Blue else Red"
  let ?st' = "(fst (get_player st c))\<lparr>games :=
             map (\<lambda>g'. if gid g' = gid g then g'\<lparr>winner := Some ?w\<rparr> else g') (games st)\<rparr>"
  have "get_last ?st' (author_id c) = Some (g\<lparr>winner := Some ?w\<rparr>, gp)"
    by (rule get_last_rescored [OF assms]) (simp_all add: get_player_def)
  moreover have "ratings ?st' = ratings st" "channel_queues ?st' = channel_queues st"
    by (simp_all add: get_player_def)
  ultimately show ?thesis
    using score_game_Some [OF assms, of result] by simp
qed

lemma score_game_other_cases:
  assumes "get_last st (author_id c) = Some (g, gp)" and "result \<or> team gp = Blue"
  shows "\<exists>st' sent. score_game st c result = Inr (st', sent)
           \<and> get_last st' (author_id c)
               = Some (g\<lparr>winner := Some (if result then team gp else opposing (team gp))\<rparr>, gp)"
proof -
  from assms(2)
  have "(if team gp = Blue \<and> result then Blue else Red)
          = (if result then team gp else opposing (team gp))"
    by (cases "team gp") auto
  with score_game_scores_last [OF assms(1), of result] show ?thesis by auto
qed

text \<open>
  C1. When a player of the red team reports a loss, the command records red, the
  reporter's own team, as the winner of the player's most recent game, where the
  specification asks for the opposing team, blue. In the other three cases the recorded
  winner is the reporter's team on a win and the opposing team on a loss
  (\<open>score_game_other_cases\<close>).
\<close>

theorem lost_on_red_records_red:
  assumes "get_last st (author_id c) = Some (g, gp)" and "team gp = Red"
  shows "\<exists>st' sent. lost st c = Inr (st', sent)
           \<and> get_last st' (author_id c) = Some (g\<lparr>winner := Some Red\<rparr>, gp)"
  using score_game_scores_last [OF assms(1), of False] assms(2)
  by (auto simp add: lost_def)

theorem lost_on_red_records_red_witness:
  "\<exists>st' sent. lost playing (as_author 11 7) = Inr (st', sent)
     \<and> get_last st' 11 = Some (\<lparr>gid = 1, date = 100, winner = Some Red\<rparr>,
          \<lparr>game_id = 1, player_id = 11, team = Red, role = Top, champion_id = None\<rparr>)"
proof -
  have c: "author_id (as_author 11 7) = 11" by (simp add: as_author_def)
  from lost_on_red_records_red [of playing "as_author 11 7", unfolded c, OF get_last_playing(2)]
  show ?thesis by simp
qed

text \<open>
  C2. Reporting a result, a correction included, leaves every stored rating as it was:
  \<open>update_trueskill\<close> does nothing, so no rating is ever the replay of a history with a
  completed game in it.
\<close>

theorem score_game_keeps_ratings:
  assumes "score_game st c result = Inr (st', sent)"
  shows "ratings st' = ratings st"
proof (cases "get_last st (author_id c)")
  case None
  with assms show ?thesis by (simp add: score_game_None)
next
  case (Some row)
  obtain g gp where "row = (g, gp)" by (cases row)
  with Some assms show ?thesis by (auto simp add: score_game_Some get_player_def)
qed

theorem score_game_keeps_ratings_witness:
  "\<exists>st' sent. won playing (as_author 10 7) = Inr (st', sent)
     \<and> get_last st' 10 = Some (\<lparr>gid = 1, date = 100, winner = Some Blue\<rparr>,
          \<lparr>game_id = 1, player_id = 10, team = Blue, role = Top, champion_id = None\<rparr>)
     \<and> ratings st' (10, Top) = Some \<lparr>mu = 25, sigma = 25 / 3\<rparr>"
proof -
  have c: "author_id (as_author 10 7) = 10" by (simp add: as_author_def)
  from score_game_scores_last [of playing "as_author 10 7", unfolded c, OF get_last_playing(1), of True]
  obtain st' sent where q: "score_game playing (as_author 10 7) True = Inr (st', sent)"
    and l: "get_last st' 10 = Some (\<lparr>gid = 1, date = 100, winner = Some Blue\<rparr>,
          \<lparr>game_id = 1, player_id = 10, team = Blue, role = Top, champion_id = None\<rparr>)"
    by auto
  have "ratings playing (10, Top) = Some \<lparr>mu = 25, sigma = 25 / 3\<rparr>"
    by (simp add: playing_def fresh_rating_def)
  with score_game_keeps_ratings [OF q] q l show ?thesis by (simp add: won_def)
qed

text \<open>
  C5. Nothing removes players from the queues: \<open>remove_players_from_queue\<close> returns the
  state it is given, and \<open>start_game\<close> only posts the proposal.
\<close>

theorem start_game_removes_nobody:
  "remove_players_from_queue st (map snd ps) = st
   \<and> start_game st (Some ps) mismatch = Inr (st, [ProposedGame ps mismatch])"
  by (simp add: remove_players_from_queue_def start_game_def)

theorem start_game_removes_nobody_witness:
  "snapshot (channel_queues (remove_players_from_queue lobby (map snd demo_players))) 7 Top = [10, 11]
   \<and> snapshot (channel_queues (remove_players_from_queue lobby (map snd demo_players))) 8 Top = [10]
   \<and> 10 \<in> set (map snd demo_players)"
  using start_game_removes_nobody [of lobby demo_players False]
  by (simp add: snapshot_lobby demo_players_def)

text \<open>
  C7. For an author who has played at least one game the report returns normally and
  scores the author's most recent game, whether or not that game already has a winner:
  afterwards that game carries a winner, and the change of a winner recorded before is
  announced. The command has no outcome "no active game".
\<close>

theorem score_game_rescores:
  assumes "get_last st (author_id c) = Some (g, gp)"
  shows "\<exists>st' sent w. score_game st c result = Inr (st', sent)
           \<and> get_last st' (author_id c) = Some (g\<lparr>winner := Some w\<rparr>, gp)
           \<and> (sent = [] \<longleftrightarrow> winner g = None \<or> winner g = Some w)
           \<and> (sent = [] \<or> sent = [GameResultChanged (gid g), RatingsRecomputed (gid g)])"
  using score_game_scores_last [OF assms, of result]
  by (auto split: if_splits)

theorem score_game_rescores_witness:
  "\<exists>st' sent w. lost played (as_author 10 7) = Inr (st', sent)
     \<and> get_last st' 10 = Some (\<lparr>gid = 1, date = 100, winner = Some w\<rparr>,
          \<lparr>game_id = 1, player_id = 10, team = Blue, role = Top, champion_id = None\<rparr>)
     \<and> (sent = [] \<longleftrightarrow> w = Blue)
     \<and> (sent = [] \<or> sent = [GameResultChanged 1, RatingsRecomputed 1])"
proof -
  have c: "author_id (as_author 10 7) = 10" by (simp add: as_author_def)
  from score_game_rescores [of played "as_author 10 7", unfolded c, OF get_last_played, of False]
  show ?thesis by (fastforce simp add: lost_def)
qed

theorem score_game_counterexample:
  "unresolved_games played 10 = []
   \<and> (\<exists>st'. lost played (as_author 10 7) = Inr (st', [GameResultChanged 1, RatingsRecomputed 1])
        \<and> get_last st' 10 = Some (\<lparr>gid = 1, date = 100, winner = Some Red\<rparr>,
             \<lparr>game_id = 1, player_id = 10, team = Blue, role = Top, champion_id = None\<rparr>))"
proof -
  have c: "author_id (as_author 10 7) = 10" by (simp add: as_author_def)
  from score_game_scores_last [of played "as_author 10 7", unfolded c, OF get_last_played, of False]
  show ?thesis by (auto simp add: lost_def unresolved_played)
qed

text \<open>A player without any game: the unpacking of \<open>None\<close> raises, and nothing catches it.\<close>

lemma score_game_never_played:
  "score_game lobby (as_author 19 7) result = Inl TypeError"
  by (rule score_game_None) (simp add: get_last_def lobby_def)

text \<open>
  C8. \<open>cancel_game\<close> deletes the game of the given id whenever exactly one
  game has that id, whatever its state: a game with a recorded winner is deleted like
  one without, and the cancellation is announced.
\<close>

theorem cancel_game_deletes:
  assumes "filter (\<lambda>g. gid g = i) (games st) = [g]"
  shows "cancel_game st i =
           Inr (st\<lparr>games := filter (\<lambda>g'. gid g' \<noteq> i) (games st)\<rparr>, [GameCancelled i])"
proof -
  have "g \<in> set (filter (\<lambda>g. gid g = i) (games st))" by (simp add: assms)
  then have "gid g = i" by simp
  with assms show ?thesis by (simp add: cancel_game_def)
qed

theorem cancel_game_deletes_witness:
  "filter (\<lambda>g. gid g = 1) (games played) = [\<lparr>gid = 1, date = 100, winner = Some Blue\<rparr>]
   \<and> cancel_game played 1 = Inr (played\<lparr>games := []\<rparr>, [GameCancelled 1])"
proof -
  have f: "filter (\<lambda>g. gid g = 1) (games played) = [\<lparr>gid = 1, date = 100, winner = Some Blue\<rparr>]"
    by (simp add: played_def)
  have "filter (\<lambda>g. gid g \<noteq> 1) (games played) = []" by (simp add: played_def)
  with cancel_game_deletes [OF f] f show ?thesis by simp
qed

theorem cancel_game_counterexample:
  "map winner (games played) = [Some Blue]
   \<and> cancel_game played 1 = Inr (played\<lparr>games := []\<rparr>, [GameCancelled 1])"
  by (simp add: cancel_game_def played_def)

end
